theory Spec2Isabelle
  imports Complex_Main "HOL-Library.Char_ord" "HOL-Library.List_Lexorder"
    "HOL-Library.Product_Lexorder"
begin

section \<open>Python and pandas values used by app.py\<close>

text \<open>
  app.py is a script: it reads the session's watchlist, builds three small tables with
  pandas and renders banners from them. Each block of the script is a function here; a
  Python exception is the \<open>Inl\<close> of a sum, so every block that can raise returns
  \<open>exn + result\<close>.

  Times are integers: a calendar date is a day number, a \<open>datetime\<close> or pandas
  \<open>Timestamp\<close> a number of microseconds on the same axis (midnight of day \<open>d\<close> is
  \<open>d * day_us\<close>). Quotients that Python computes in floating point (\<open>hours_until\<close>,
  \<open>top_share\<close>) are exact rationals. The script only compares \<open>hours_until\<close> with
  \<open>0\<close> and \<open>48\<close>, and rounding is monotone and exact at both bounds for differences
  of whole microseconds, so the comparisons come out as they do here. Strings are byte
  strings, the UTF-8 of Python's text. Python's \<open>str.strip\<close> and \<open>str.upper\<close> follow
  the Unicode tables; \<open>strip\<close> and \<open>ascii_upper\<close> below are what they do on ASCII
  text. The script strips the tag names of its own table, which are ASCII, and the
  content of the text box, which is any text: for the text box the two functions are
  parameters of \<open>new_ticker\<close>.
\<close>

datatype exn = KeyError string | IndexError | ValueError | TypeError | ConnectionError

definition day_us :: int where
  "day_us = 86400000000"

definition hour_us :: int where
  "hour_us = 3600000000"

text \<open>\<open>str.isspace\<close> on ASCII: tab to carriage return, the four separators, the space.\<close>

definition is_space :: "char \<Rightarrow> bool" where
  "is_space c = (let n = (of_char c :: nat) in (9 \<le> n \<and> n \<le> 13) \<or> (28 \<le> n \<and> n \<le> 32))"

definition is_lower :: "char \<Rightarrow> bool" where
  "is_lower c = (let n = (of_char c :: nat) in 97 \<le> n \<and> n \<le> 122)"

definition to_upper :: "char \<Rightarrow> char" where
  "to_upper c = (if is_lower c then char_of ((of_char c :: nat) - 32) else c)"

text \<open>\<open>s.strip()\<close> and \<open>s.upper()\<close> for ASCII \<open>s\<close>.\<close>

definition strip :: "string \<Rightarrow> string" where
  "strip s = rev (dropWhile is_space (rev (dropWhile is_space s)))"

definition ascii_upper :: "string \<Rightarrow> string" where
  "ascii_upper s = map to_upper s"

text \<open>\<open>sep.join(xs)\<close> and \<open>s.split(c)\<close> for a one-character separator.\<close>

fun join :: "string \<Rightarrow> string list \<Rightarrow> string" where
  "join sep [] = []"
| "join sep [x] = x"
| "join sep (x # y # ys) = x @ sep @ join sep (y # ys)"

fun split :: "char \<Rightarrow> string \<Rightarrow> string list" where
  "split c [] = [[]]"
| "split c (x # xs) =
     (if x = c then [] # split c xs
      else (case split c xs of [] \<Rightarrow> [[x]] | w # ws \<Rightarrow> (x # w) # ws))"

text \<open>
  A \<open>DataFrame\<close> is its column labels and its rows. \<open>pd.DataFrame(rows)\<close> of a list of
  dicts takes the labels from the dicts' keys, so an empty list gives a frame with no
  columns at all. Selecting or sorting by a label the frame does not have raises
  \<open>KeyError\<close>; a boolean mask keeps the labels and filters the rows.
\<close>

record 'r frame =
  columns :: "string list"
  body :: "'r list"

definition DataFrame :: "string list \<Rightarrow> 'r list \<Rightarrow> 'r frame" where
  "DataFrame keys rs = \<lparr>columns = (if rs = [] then [] else keys), body = rs\<rparr>"

definition sort_values :: "string list \<Rightarrow> ('r \<Rightarrow> 'k::linorder) \<Rightarrow> 'r frame \<Rightarrow> exn + 'r frame" where
  "sort_values by key df =
     (case filter (\<lambda>c. c \<notin> set (columns df)) by of
        c # _ \<Rightarrow> Inl (KeyError c)
      | [] \<Rightarrow> Inr (df\<lparr>body := sort_key key (body df)\<rparr>))"

definition getitem :: "string \<Rightarrow> ('r \<Rightarrow> 'v) \<Rightarrow> 'r frame \<Rightarrow> exn + 'v list" where
  "getitem c field df =
     (if c \<in> set (columns df) then Inr (map field (body df)) else Inl (KeyError c))"

definition mask :: "('r \<Rightarrow> bool) \<Rightarrow> 'r frame \<Rightarrow> 'r frame" where
  "mask p df = df\<lparr>body := filter p (body df)\<rparr>"

text \<open>
  \<open>pd.Series(xs).value_counts()\<close>: the distinct values in order of first appearance with
  their counts, then sorted by count, largest first. pandas sorts descending by reversing,
  sorting ascending and reversing again, which leaves equal counts in first-appearance
  order.
\<close>

definition uniq :: "'a list \<Rightarrow> 'a list" where
  "uniq xs = rev (remdups (rev xs))"

definition value_counts :: "string list \<Rightarrow> (string \<times> nat) list" where
  "value_counts xs =
     rev (sort_key snd (rev (map (\<lambda>x. (x, count_list xs x)) (uniq xs))))"

section \<open>Watchlist (sidebar)\<close>

text \<open>
  Lines 17 to 25. \<open>new_ticker\<close> is the text box's content after \<open>.strip().upper()\<close>;
  its first two arguments are Python's \<open>str.strip\<close> and \<open>str.upper\<close>. \<open>col_add\<close> is
  the Add button (after the two functions, whether it was pressed) and \<open>col_clear\<close> the
  Clear button.
\<close>

definition new_ticker :: "(string \<Rightarrow> string) \<Rightarrow> (string \<Rightarrow> string) \<Rightarrow> string \<Rightarrow> string" where
  "new_ticker str_strip str_upper text_input = str_upper (str_strip text_input)"

definition col_add :: "(string \<Rightarrow> string) \<Rightarrow> (string \<Rightarrow> string) \<Rightarrow> bool \<Rightarrow> string
    \<Rightarrow> string list \<Rightarrow> string list" where
  "col_add str_strip str_upper pressed text_input watchlist =
     (if pressed \<and> new_ticker str_strip str_upper text_input \<noteq> [] then
        (if new_ticker str_strip str_upper text_input \<notin> set watchlist
         then watchlist @ [new_ticker str_strip str_upper text_input] else watchlist)
      else watchlist)"

definition col_clear :: "bool \<Rightarrow> string list \<Rightarrow> string list" where
  "col_clear pressed watchlist = (if pressed then [] else watchlist)"

section \<open>Macro calendar and the 48 hour alert\<close>

record macro_event =
  date :: int
  event :: string
  why :: string

text \<open>Lines 40 to 44; the arrows of the last rationale are UTF-8 bytes.\<close>

definition macro_events :: "int \<Rightarrow> macro_event list" where
  "macro_events today =
     [\<lparr>date = today + 1, event = ''CPI (Inflation) release'',
       why = ''Can move rates & growth stocks; affects valuations.''\<rparr>,
      \<lparr>date = today + 7, event = ''FOMC / Fed decision'',
       why = ''Rate path + forward guidance; big driver of market regime.''\<rparr>,
      \<lparr>date = today + 14, event = ''Jobs report (NFP)'',
       why = ''Labor tightness '' @ [CHR 0xE2, CHR 0x86, CHR 0x92] @ '' inflation pressure ''
             @ [CHR 0xE2, CHR 0x86, CHR 0x92] @ '' rate expectations.''\<rparr>]"

text \<open>
  Line 46. Line 47 turns the dates into midnight timestamps; the rows keep the day number
  and \<open>hours_until\<close> converts it where the timestamp is used.
\<close>

definition macro_df :: "macro_event list \<Rightarrow> exn + macro_event frame" where
  "macro_df evs = sort_values [''date''] date (DataFrame [''date'', ''event'', ''why''] evs)"

text \<open>Line 88: the event's midnight minus \<open>now\<close>, in hours.\<close>

definition hours_until :: "int \<Rightarrow> macro_event \<Rightarrow> rat" where
  "hours_until now r = of_int (date r * day_us - now) / of_int hour_us"

text \<open>Line 90, with the horizon a parameter; the script's horizon is 48.\<close>

definition within_hours :: "int \<Rightarrow> rat \<Rightarrow> macro_event frame \<Rightarrow> macro_event frame" where
  "within_hours now h df = mask (\<lambda>r. hours_until now r \<ge> 0 \<and> hours_until now r \<le> h) df"

definition soon_macro :: "int \<Rightarrow> macro_event frame \<Rightarrow> macro_event frame" where
  "soon_macro now df = within_hours now 48 df"

datatype macro_alert = Imminent macro_event | Clear

text \<open>Lines 92 to 98: the error banner for the first row, or the clear banner.\<close>

definition macro_banner :: "int \<Rightarrow> macro_event frame \<Rightarrow> macro_alert" where
  "macro_banner now df =
     (case body (soon_macro now df) of [] \<Rightarrow> Clear | top_row # _ \<Rightarrow> Imminent top_row)"

definition macro_alert :: "int \<Rightarrow> macro_event list \<Rightarrow> exn + macro_alert" where
  "macro_alert now evs =
     (case macro_df evs of Inl e \<Rightarrow> Inl e | Inr df \<Rightarrow> Inr (macro_banner now df))"

text \<open>The events a horizon query returns; nothing when building the table raised.\<close>

definition eventsWithin :: "int \<Rightarrow> rat \<Rightarrow> macro_event list \<Rightarrow> macro_event set" where
  "eventsWithin now h evs =
     (case macro_df evs of Inl e \<Rightarrow> {} | Inr df \<Rightarrow> set (body (within_hours now h df)))"

text \<open>
  The window as the specification words it, \<open>0 \<le> date - now \<le> h\<close> hours, in whole
  microseconds; \<open>window_48\<close> below shows that line 90 tests exactly this.
\<close>

definition spec_within :: "int \<Rightarrow> int \<Rightarrow> macro_event \<Rightarrow> bool" where
  "spec_within now h e = (0 \<le> date e * day_us - now \<and> date e * day_us - now \<le> h * hour_us)"

section \<open>Earnings dates\<close>

text \<open>
  What \<open>yf.Ticker(t).calendar\<close> can hand back. A cell of the table is a scalar or a
  list of scalars; a scalar is something \<open>pd.to_datetime\<close> turns into a timestamp,
  \<open>None\<close>, or something it rejects. The value is a frame (its rows: index label and
  the cells of that row, labels unique) or some other object, and the property can raise.
\<close>

datatype raw = Stamp int | Missing | Junk

datatype cell = Scalar raw | Seq "raw list"

datatype cal = NotFrame | Frame "(string \<times> cell list) list"

text \<open>
  \<open>pd.to_datetime\<close> gives a \<open>Timestamp\<close> for a scalar and a \<open>DatetimeIndex\<close> (with
  \<open>NaT\<close> for a missing entry) for a list; \<open>None\<close> stays \<open>None\<close>.
\<close>

datatype resolved = Timestamp int | DatetimeIndex "int option list"

fun to_datetime :: "cell \<Rightarrow> exn + resolved option" where
  "to_datetime (Scalar (Stamp t)) = Inr (Some (Timestamp t))"
| "to_datetime (Scalar Missing) = Inr None"
| "to_datetime (Scalar Junk) = Inl ValueError"
| "to_datetime (Seq vs) =
     (if Junk \<in> set vs then Inl ValueError
      else Inr (Some (DatetimeIndex (map (\<lambda>v. case v of Stamp t \<Rightarrow> Some t | _ \<Rightarrow> None) vs))))"

text \<open>\<open>cal.empty\<close>: no rows or no columns.\<close>

definition frame_empty :: "(string \<times> cell list) list \<Rightarrow> bool" where
  "frame_empty rs = (case rs of [] \<Rightarrow> True | r # _ \<Rightarrow> snd r = [])"

text \<open>Lines 56 to 65 and 68, the body of the \<open>try\<close> and the final \<open>return None\<close>.\<close>

definition earnings_date_try :: "(string \<Rightarrow> exn + cal) \<Rightarrow> string \<Rightarrow> exn + resolved option" where
  "earnings_date_try calendar ticker =
     (case calendar ticker of
        Inl e \<Rightarrow> Inl e
      | Inr NotFrame \<Rightarrow> Inr None
      | Inr (Frame rs) \<Rightarrow>
          if frame_empty rs then Inr None
          else (case map_of rs ''Earnings Date'' of
                  None \<Rightarrow> Inr None
                | Some [] \<Rightarrow> Inl IndexError
                | Some (val # _) \<Rightarrow>
                    to_datetime (case val of Seq (v # _) \<Rightarrow> Scalar v | _ \<Rightarrow> val)))"

text \<open>Lines 54 to 68: \<open>except Exception\<close> turns whatever the body raised into \<open>None\<close>.\<close>

definition safe_earnings_date :: "(string \<Rightarrow> exn + cal) \<Rightarrow> string \<Rightarrow> exn + resolved option" where
  "safe_earnings_date calendar ticker =
     (case earnings_date_try calendar ticker of Inl e \<Rightarrow> Inr None | Inr ed \<Rightarrow> Inr ed)"

text \<open>
  Lines 70 to 77. \<open>earnings_date\<close> is the ISO text of the date in the script; ISO dates
  of four-digit years order as the dates do, so the row keeps the day number.
  \<open>ed.date()\<close> is a call of an array when \<open>ed\<close> is a \<open>DatetimeIndex\<close>.
\<close>

record earn_row =
  ticker :: string
  earnings_date :: "int option"
  days_until :: "int option"

definition earn_row_of :: "int \<Rightarrow> string \<Rightarrow> resolved option \<Rightarrow> exn + earn_row" where
  "earn_row_of today tic ed =
     (case ed of
        None \<Rightarrow> Inr \<lparr>ticker = tic, earnings_date = None, days_until = None\<rparr>
      | Some (Timestamp t) \<Rightarrow>
          Inr \<lparr>ticker = tic, earnings_date = Some (t div day_us),
               days_until = Some (t div day_us - today)\<rparr>
      | Some (DatetimeIndex _) \<Rightarrow> Inl TypeError)"

fun rows :: "int \<Rightarrow> (string \<Rightarrow> exn + cal) \<Rightarrow> string list \<Rightarrow> exn + earn_row list" where
  "rows today calendar [] = Inr []"
| "rows today calendar (tic # watchlist) =
     (case safe_earnings_date calendar tic of
        Inl e \<Rightarrow> Inl e
      | Inr ed \<Rightarrow>
          (case earn_row_of today tic ed of
             Inl e \<Rightarrow> Inl e
           | Inr r \<Rightarrow>
               (case rows today calendar watchlist of
                  Inl e \<Rightarrow> Inl e
                | Inr rs \<Rightarrow> Inr (r # rs))))"

text \<open>
  Line 79: sorted by date, then ticker, rows without a date last. The key puts a flag
  before the date so that \<open>None\<close> is larger than every date.
\<close>

definition earn_key :: "earn_row \<Rightarrow> (nat \<times> int) \<times> string" where
  "earn_key r =
     ((case earnings_date r of None \<Rightarrow> (1, 0) | Some d \<Rightarrow> (0, d)), ticker r)"

definition earn_df :: "earn_row list \<Rightarrow> exn + earn_row frame" where
  "earn_df rs =
     sort_values [''earnings_date'', ''ticker''] earn_key
       (DataFrame [''ticker'', ''earnings_date'', ''days_until''] rs)"

text \<open>Lines 101 and 102: \<open>dropna\<close> on \<open>days_until\<close>, then the seven day window.\<close>

definition dropna :: "earn_row frame \<Rightarrow> earn_row frame" where
  "dropna df = mask (\<lambda>r. days_until r \<noteq> None) df"

definition soon_earn_7d :: "earn_row frame \<Rightarrow> earn_row frame" where
  "soon_earn_7d df =
     mask (\<lambda>r. case days_until r of None \<Rightarrow> False | Some d \<Rightarrow> d \<ge> 0 \<and> d \<le> 7) (dropna df)"

datatype earnings_alert = Upcoming "string list" | NoEarnings

text \<open>Lines 104 to 108: the warning with the tickers, or the information line.\<close>

definition earnings_banner :: "earn_row frame \<Rightarrow> earnings_alert" where
  "earnings_banner df =
     (if length (body (soon_earn_7d df)) > 0
      then Upcoming (map ticker (body (soon_earn_7d df))) else NoEarnings)"

definition earnings_alert :: "earn_row list \<Rightarrow> exn + earnings_alert" where
  "earnings_alert rs =
     (case earn_df rs of Inl e \<Rightarrow> Inl e | Inr df \<Rightarrow> Inr (earnings_banner df))"

text \<open>
  The seven day window as the specification words it, on the earnings date itself:
  \<open>0 \<le> earnings_date - today \<le> 7\<close>, false for a record without a date.
\<close>

definition spec_due :: "int \<Rightarrow> earn_row \<Rightarrow> bool" where
  "spec_due today r =
     (case earnings_date r of None \<Rightarrow> False | Some d \<Rightarrow> 0 \<le> d - today \<and> d - today \<le> 7)"

section \<open>Exposure\<close>

text \<open>Lines 114 to 126.\<close>

definition sector_to_tags :: "(string \<times> string list) list" where
  "sector_to_tags =
     [(''Technology'', [''rate-sensitive'', ''growth'']),
      (''Communication Services'', [''rate-sensitive'', ''growth'']),
      (''Consumer Discretionary'', [''cyclical'', ''rate-sensitive'']),
      (''Financial Services'', [''rate-sensitive'', ''macro-sensitive'']),
      (''Real Estate'', [''rate-sensitive'']),
      (''Utilities'', [''defensive'', ''rate-sensitive'']),
      (''Consumer Staples'', [''defensive'', ''inflation-sensitive'']),
      (''Health Care'', [''defensive'']),
      (''Industrials'', [''cyclical'']),
      (''Energy'', [''inflation-sensitive'', ''commodities'']),
      (''Basic Materials'', [''inflation-sensitive'', ''commodities''])]"

text \<open>Line 139; an empty sector name is falsy.\<close>

definition tags_of :: "string option \<Rightarrow> string list" where
  "tags_of sector =
     (case sector of
        None \<Rightarrow> [''unknown'']
      | Some s \<Rightarrow>
          if s = [] then [''unknown'']
          else (case map_of sector_to_tags s of None \<Rightarrow> [''unknown''] | Some ts \<Rightarrow> ts))"

record ex_row =
  ex_ticker :: string
  sector :: "string option"
  tags :: string

text \<open>Lines 136 to 142; \<open>get_sector\<close> is the lookup of lines 128 to 133.\<close>

definition ex_rows :: "(string \<Rightarrow> string option) \<Rightarrow> string list \<Rightarrow> ex_row list" where
  "ex_rows get_sector watchlist =
     map (\<lambda>tic. \<lparr>ex_ticker = tic, sector = get_sector tic,
                 tags = join '', '' (tags_of (get_sector tic))\<rparr>) watchlist"

definition ex_df :: "(string \<Rightarrow> string option) \<Rightarrow> string list \<Rightarrow> ex_row frame" where
  "ex_df get_sector watchlist =
     DataFrame [''ticker'', ''sector'', ''tags''] (ex_rows get_sector watchlist)"

text \<open>
  Lines 147 to 149. The column holds the joined text, never a missing value, so
  \<open>fillna\<close> changes nothing.
\<close>

definition all_tags :: "string list \<Rightarrow> string list" where
  "all_tags col = concat (map (\<lambda>t. map strip (split CHR '','' t)) col)"

record summary =
  tag_counts :: "(string \<times> nat) list"
  top_tag :: string
  top_share :: rat

text \<open>Lines 151 to 154.\<close>

definition summarize :: "string list \<Rightarrow> string list \<Rightarrow> summary" where
  "summarize watchlist col =
     (let tc = value_counts (all_tags col) in
      \<lparr>tag_counts = tc,
       top_tag = (case tc of [] \<Rightarrow> ''unknown'' | (t, n) # _ \<Rightarrow> t),
       top_share =
         (case tc of [] \<Rightarrow> 0
          | (t, n) # _ \<Rightarrow> of_nat n / of_nat (max (length watchlist) 1))\<rparr>)"

definition exposure :: "(string \<Rightarrow> string option) \<Rightarrow> string list \<Rightarrow> exn + summary" where
  "exposure get_sector watchlist =
     (case getitem ''tags'' tags (ex_df get_sector watchlist) of
        Inl e \<Rightarrow> Inl e
      | Inr col \<Rightarrow> Inr (summarize watchlist col))"

section \<open>One run of the script\<close>

text \<open>
  The blocks in the order the script runs them: the macro table (line 46), the earnings
  rows and table (lines 70 to 79), the two alerts (lines 84 to 108), the exposure summary
  (lines 136 to 154). The first exception ends the run.
\<close>

record page =
  macro :: macro_alert
  earnings :: earnings_alert
  exposure_summary :: summary

definition run :: "int \<Rightarrow> int \<Rightarrow> (string \<Rightarrow> exn + cal) \<Rightarrow> (string \<Rightarrow> string option)
    \<Rightarrow> macro_event list \<Rightarrow> string list \<Rightarrow> exn + page" where
  "run today now calendar get_sector evs watchlist =
     (case macro_df evs of Inl e \<Rightarrow> Inl e | Inr mdf \<Rightarrow>
      (case rows today calendar watchlist of Inl e \<Rightarrow> Inl e | Inr rs \<Rightarrow>
       (case earn_df rs of Inl e \<Rightarrow> Inl e | Inr edf \<Rightarrow>
        (case exposure get_sector watchlist of Inl e \<Rightarrow> Inl e | Inr s \<Rightarrow>
           Inr \<lparr>macro = macro_banner now mdf, earnings = earnings_banner edf,
                exposure_summary = s\<rparr>))))"

section \<open>Facts about the string functions\<close>

lemma to_upper_not_lower: "\<not> is_lower (to_upper c)"
  by (auto simp: is_lower_def to_upper_def Let_def)

lemma to_upper_space: "is_space (to_upper c) = is_space c"
  by (auto simp: is_lower_def is_space_def to_upper_def Let_def)

lemma strip_last: "strip s \<noteq> [] \<Longrightarrow> \<not> is_space (last (strip s))"
  by (simp add: strip_def last_rev hd_dropWhile)

lemma strip_prefix: "\<exists>zs. dropWhile is_space s = strip s @ zs"
proof -
  let ?ys = "dropWhile is_space s"
  have "rev (takeWhile is_space (rev ?ys) @ dropWhile is_space (rev ?ys)) = rev (rev ?ys)"
    by (simp only: takeWhile_dropWhile_id)
  then have "rev (dropWhile is_space (rev ?ys)) @ rev (takeWhile is_space (rev ?ys)) = ?ys"
    by (simp only: rev_append rev_rev_ident)
  then have "?ys = strip s @ rev (takeWhile is_space (rev ?ys))"
    by (simp only: strip_def)
  then show ?thesis ..
qed

lemma strip_hd: "strip s \<noteq> [] \<Longrightarrow> \<not> is_space (hd (strip s))"
proof -
  assume ne: "strip s \<noteq> []"
  obtain zs where eq: "dropWhile is_space s = strip s @ zs"
    using strip_prefix by blast
  then have "dropWhile is_space s \<noteq> []" using ne by simp
  then have "\<not> is_space (hd (dropWhile is_space s))" by (rule hd_dropWhile)
  then show ?thesis using eq ne by simp
qed

lemma ascii_symbol_ends:
  "ascii_upper (strip t) \<noteq> [] \<Longrightarrow>
     \<not> is_space (hd (ascii_upper (strip t))) \<and> \<not> is_space (last (ascii_upper (strip t)))"
  using strip_hd [of t] strip_last [of t]
  by (simp add: ascii_upper_def hd_map last_map to_upper_space)

lemma ascii_symbol_no_lower: "\<forall>c \<in> set (ascii_upper s). \<not> is_lower c"
  by (simp add: ascii_upper_def to_upper_not_lower)

section \<open>The watchlist claims\<close>

text \<open>
  C6. Whatever \<open>str.strip\<close> and \<open>str.upper\<close> do to the text, pressing Add twice with
  the same text leaves the watchlist as one press does, and a press either changes
  nothing or appends exactly the stripped, upper-cased text. Where the two functions act
  as they do on ASCII text, that symbol has no lower-case letter and neither starts nor
  ends with whitespace.
\<close>

theorem add_idempotent_normalized:
  "col_add str_strip str_upper True t (col_add str_strip str_upper True t w)
     = col_add str_strip str_upper True t w
   \<and> (col_add str_strip str_upper True t w = w
        \<or> col_add str_strip str_upper True t w = w @ [str_upper (str_strip t)])
   \<and> (str_strip t = strip t \<and> str_upper (strip t) = ascii_upper (strip t) \<longrightarrow>
        (\<forall>c \<in> set (str_upper (str_strip t)). \<not> is_lower c)
        \<and> (str_upper (str_strip t) \<noteq> [] \<longrightarrow>
              \<not> is_space (hd (str_upper (str_strip t)))
              \<and> \<not> is_space (last (str_upper (str_strip t)))))"
proof -
  have idem: "col_add str_strip str_upper True t (col_add str_strip str_upper True t w)
     = col_add str_strip str_upper True t w"
    by (simp add: col_add_def new_ticker_def)
  have stored: "col_add str_strip str_upper True t w = w
        \<or> col_add str_strip str_upper True t w = w @ [str_upper (str_strip t)]"
    by (simp add: col_add_def new_ticker_def)
  have ascii: "str_strip t = strip t \<and> str_upper (strip t) = ascii_upper (strip t) \<longrightarrow>
        (\<forall>c \<in> set (str_upper (str_strip t)). \<not> is_lower c)
        \<and> (str_upper (str_strip t) \<noteq> [] \<longrightarrow>
              \<not> is_space (hd (str_upper (str_strip t)))
              \<and> \<not> is_space (last (str_upper (str_strip t))))"
    using ascii_symbol_ends [of t] ascii_symbol_no_lower [of "strip t"] by simp
  show ?thesis using idem stored ascii by blast
qed

theorem add_idempotent_normalized_witness:
  "col_add strip ascii_upper True ''  nvda '' [''AAPL'', ''MSFT''] = [''AAPL'', ''MSFT'', ''NVDA'']
   \<and> col_add strip ascii_upper True ''  nvda ''
         (col_add strip ascii_upper True ''  nvda '' [''AAPL'', ''MSFT''])
       = [''AAPL'', ''MSFT'', ''NVDA'']
   \<and> ascii_upper (strip ''  nvda '') = ''NVDA''"
proof -
  have a: "col_add strip ascii_upper True ''  nvda '' [''AAPL'', ''MSFT'']
      = [''AAPL'', ''MSFT'', ''NVDA'']"
    by code_simp
  have b: "ascii_upper (strip ''  nvda '') = ''NVDA''"
    by code_simp
  show ?thesis
    using add_idempotent_normalized [of strip ascii_upper "''  nvda ''" "[''AAPL'', ''MSFT'']"]
    by (simp add: a b)
qed

text \<open>
  C9. Whatever \<open>str.strip\<close> and \<open>str.upper\<close> do to the text, pressing Add when the
  stripped, upper-cased text is empty (an empty text box, or one with only whitespace)
  or is already on the watchlist leaves the watchlist as it was. The block has no
  statement that can raise, so the result is always a watchlist.
\<close>

theorem add_empty_or_duplicate_noop:
  assumes "new_ticker str_strip str_upper t = []
           \<or> new_ticker str_strip str_upper t \<in> set w"
  shows "col_add str_strip str_upper True t w = w"
  using assms by (auto simp: col_add_def)

theorem add_empty_or_duplicate_noop_witness:
  "col_add strip ascii_upper True [] [''AAPL'', ''MSFT''] = [''AAPL'', ''MSFT'']
   \<and> col_add strip ascii_upper True ''   '' [''AAPL'', ''MSFT''] = [''AAPL'', ''MSFT'']
   \<and> col_add strip ascii_upper True '' msft'' [''AAPL'', ''MSFT''] = [''AAPL'', ''MSFT'']"
proof -
  have e: "new_ticker strip ascii_upper [] = []"
    by code_simp
  have a: "new_ticker strip ascii_upper ''   '' = []"
    by code_simp
  have b: "new_ticker strip ascii_upper '' msft'' = ''MSFT''"
    by code_simp
  show ?thesis
    using add_empty_or_duplicate_noop [of strip ascii_upper "[]" "[''AAPL'', ''MSFT'']"]
      add_empty_or_duplicate_noop [of strip ascii_upper "''   ''" "[''AAPL'', ''MSFT'']"]
      add_empty_or_duplicate_noop [of strip ascii_upper "'' msft''" "[''AAPL'', ''MSFT'']"]
    by (simp add: e a b)
qed

section \<open>The macro calendar claims\<close>

text \<open>
  C7. With \<open>now\<close> fixed, a longer horizon returns every event a shorter one returns:
  for the query on a calendar, and for the filter of line 90 on any table.
\<close>

theorem eventsWithin_monotone:
  assumes "h1 \<le> h2"
  shows "eventsWithin now h1 evs \<subseteq> eventsWithin now h2 evs
         \<and> set (body (within_hours now h1 df)) \<subseteq> set (body (within_hours now h2 df))"
  using assms
  by (auto simp: eventsWithin_def within_hours_def mask_def split: sum.splits)

theorem eventsWithin_monotone_witness:
  "eventsWithin 0 48 (macro_events 0) \<subseteq> eventsWithin 0 200 (macro_events 0)
   \<and> event ` eventsWithin 0 48 (macro_events 0) = {''CPI (Inflation) release''}
   \<and> event ` eventsWithin 0 200 (macro_events 0) =
       {''CPI (Inflation) release'', ''FOMC / Fed decision''}"
proof -
  have a: "event ` eventsWithin 0 48 (macro_events 0) = {''CPI (Inflation) release''}"
    by (simp add: eventsWithin_def macro_df_def sort_values_def DataFrame_def
        macro_events_def within_hours_def mask_def hours_until_def day_us_def hour_us_def)
  have b: "event ` eventsWithin 0 200 (macro_events 0) =
      {''CPI (Inflation) release'', ''FOMC / Fed decision''}"
    by (simp add: eventsWithin_def macro_df_def sort_values_def DataFrame_def
        macro_events_def within_hours_def mask_def hours_until_def day_us_def hour_us_def)
  show ?thesis
    using eventsWithin_monotone [of 48 200 0 "macro_events 0"] by (simp add: a b)
qed

text \<open>The quotient of line 88 compares with the bounds as the integer difference does.\<close>

lemma hours_lo: "hours_until now r \<ge> 0 \<longleftrightarrow> date r * day_us - now \<ge> 0"
proof -
  have "(of_int (date r * day_us - now) :: rat) / of_int hour_us \<ge> 0
        \<longleftrightarrow> (of_int (date r * day_us - now) :: rat) \<ge> 0"
    by (simp add: hour_us_def zero_le_divide_iff)
  then show ?thesis by (simp only: hours_until_def of_int_0_le_iff)
qed

lemma hours_hi: "hours_until now r \<le> of_int h \<longleftrightarrow> date r * day_us - now \<le> h * hour_us"
proof -
  have "(of_int (date r * day_us - now) :: rat) / of_int hour_us \<le> of_int h
        \<longleftrightarrow> (of_int (date r * day_us - now) :: rat) \<le> of_int h * of_int hour_us"
    by (simp add: hour_us_def pos_divide_le_eq)
  also have "\<dots> \<longleftrightarrow> date r * day_us - now \<le> h * hour_us"
    by (simp only: of_int_mult [symmetric] of_int_le_iff)
  finally show ?thesis by (simp only: hours_until_def)
qed

lemma window_48: "(hours_until now r \<ge> 0 \<and> hours_until now r \<le> 48) = spec_within now 48 r"
  using hours_lo [of now r] hours_hi [of now r 48] by (simp add: spec_within_def)

lemma macro_df_nonempty:
  "evs \<noteq> [] \<Longrightarrow>
     macro_df evs = Inr \<lparr>columns = [''date'', ''event'', ''why''], body = sort_key date evs\<rparr>"
  by (simp add: macro_df_def sort_values_def DataFrame_def)

lemma soon_macro_body:
  "body (soon_macro now \<lparr>columns = cs, body = sort_key date evs\<rparr>)
     = filter (spec_within now 48) (sort_key date evs)"
  by (simp add: soon_macro_def within_hours_def mask_def window_48)

lemma sorted_hd_least: "sorted (map f (x # xs)) \<Longrightarrow> y \<in> set (x # xs) \<Longrightarrow> f x \<le> f y"
  by auto

lemma macro_alert_cases:
  assumes "evs \<noteq> []"
  shows "macro_alert now evs =
      Inr (case filter (spec_within now 48) (sort_key date evs) of
             [] \<Rightarrow> Clear | t # _ \<Rightarrow> Imminent t)"
  using assms
  by (simp add: macro_alert_def macro_df_nonempty macro_banner_def soon_macro_body)

text \<open>
  C3, as the script has it. On a calendar with at least one event the alert is imminent
  exactly when some event lies within 0 to 48 hours of \<open>now\<close>, both bounds included; the
  event shown is then one of those events with no such event dated earlier; with no such
  event the alert is clear. The claim says this of every calendar, and the empty calendar
  is where it fails: line 46 sorts a table that has no \<open>date\<close> column and raises.
\<close>

theorem macro_alert_nonempty_calendar:
  assumes "evs \<noteq> []"
  shows "((\<exists>t. macro_alert now evs = Inr (Imminent t))
            \<longleftrightarrow> (\<exists>e \<in> set evs. spec_within now 48 e))
    \<and> (\<forall>t. macro_alert now evs = Inr (Imminent t) \<longrightarrow>
          t \<in> set evs \<and> spec_within now 48 t
          \<and> (\<forall>e \<in> set evs. spec_within now 48 e \<longrightarrow> date t \<le> date e))
    \<and> ((\<forall>e \<in> set evs. \<not> spec_within now 48 e) \<longrightarrow> macro_alert now evs = Inr Clear)"
proof -
  let ?sel = "filter (spec_within now 48) (sort_key date evs)"
  have set_sel: "set ?sel = {e \<in> set evs. spec_within now 48 e}"
    by auto
  have srt: "sorted (map date ?sel)"
    by (rule sorted_filter) simp
  show ?thesis
  proof (cases ?sel)
    case Nil
    then have "\<forall>e \<in> set evs. \<not> spec_within now 48 e"
      using set_sel by auto
    then show ?thesis
      using Nil by (simp add: macro_alert_cases [OF assms])
  next
    case (Cons t ts)
    have t_in: "t \<in> set ?sel" using Cons by simp
    then have t1: "t \<in> set evs" and t2: "spec_within now 48 t"
      using set_sel by auto
    have least: "\<forall>e \<in> set evs. spec_within now 48 e \<longrightarrow> date t \<le> date e"
    proof (intro ballI impI)
      fix e assume "e \<in> set evs" "spec_within now 48 e"
      then have "e \<in> set (t # ts)" using set_sel Cons by auto
      moreover have "sorted (map date (t # ts))" using srt Cons by simp
      ultimately show "date t \<le> date e" by (rule sorted_hd_least [rotated])
    qed
    show ?thesis
      using Cons t1 t2 least by (auto simp: macro_alert_cases [OF assms])
  qed
qed

theorem macro_alert_nonempty_calendar_witness:
  "macro_alert (36 * hour_us)
      [\<lparr>date = 3, event = ''late'', why = ''b''\<rparr>, \<lparr>date = 2, event = ''early'', why = ''a''\<rparr>]
     = Inr (Imminent \<lparr>date = 2, event = ''early'', why = ''a''\<rparr>)
   \<and> spec_within (36 * hour_us) 48 \<lparr>date = 3, event = ''late'', why = ''b''\<rparr>
   \<and> spec_within (36 * hour_us) 48 \<lparr>date = 2, event = ''early'', why = ''a''\<rparr>"
proof -
  have a: "macro_alert (36 * hour_us)
      [\<lparr>date = 3, event = ''late'', why = ''b''\<rparr>, \<lparr>date = 2, event = ''early'', why = ''a''\<rparr>]
     = Inr (Imminent \<lparr>date = 2, event = ''early'', why = ''a''\<rparr>)"
    by (simp add: macro_alert_cases spec_within_def day_us_def hour_us_def)
  have b: "spec_within (36 * hour_us) 48 \<lparr>date = 3, event = ''late'', why = ''b''\<rparr>"
    by (simp add: spec_within_def day_us_def hour_us_def)
  have c: "spec_within (36 * hour_us) 48 \<lparr>date = 2, event = ''early'', why = ''a''\<rparr>"
    by (simp add: spec_within_def day_us_def hour_us_def)
  show ?thesis
    using macro_alert_nonempty_calendar [of
        "[\<lparr>date = 3, event = ''late'', why = ''b''\<rparr>, \<lparr>date = 2, event = ''early'', why = ''a''\<rparr>]"
        "36 * hour_us"]
    by (simp add: a b c)
qed

theorem macro_alert_empty_calendar_raises:
  "macro_alert 0 [] = Inl (KeyError ''date'') \<and> macro_alert 0 [] \<noteq> Inr Clear
   \<and> \<not> (\<exists>e \<in> set ([] :: macro_event list). spec_within 0 48 e)"
  by (simp add: macro_alert_def macro_df_def sort_values_def DataFrame_def)

text \<open>
  C10. With the three events of lines 40 to 44 and \<open>now\<close> on the day \<open>today\<close> (from its
  midnight up to, not including, the next), the alert is imminent and shows the CPI
  release; the clear banner is never the result.
\<close>

theorem hard_coded_calendar_always_imminent:
  assumes "today * day_us \<le> now" and "now < (today + 1) * day_us"
  shows "macro_alert now (macro_events today) =
      Inr (Imminent \<lparr>date = today + 1, event = ''CPI (Inflation) release'',
         why = ''Can move rates & growth stocks; affects valuations.''\<rparr>)
    \<and> macro_alert now (macro_events today) \<noteq> Inr Clear"
proof -
  have srt: "sort_key date (macro_events today) = macro_events today"
    by (simp add: macro_events_def)
  have ne: "macro_events today \<noteq> []"
    by (simp add: macro_events_def)
  have w: "spec_within now 48 (hd (macro_events today))"
    using assms
    by (simp add: spec_within_def macro_events_def day_us_def hour_us_def algebra_simps)
  have "filter (spec_within now 48) (macro_events today)
      = hd (macro_events today) # filter (spec_within now 48) (tl (macro_events today))"
    using w by (simp add: macro_events_def)
  then have "macro_alert now (macro_events today) = Inr (Imminent (hd (macro_events today)))"
    by (simp add: macro_alert_cases [OF ne] srt)
  then show ?thesis by (simp add: macro_events_def)
qed

theorem hard_coded_calendar_always_imminent_witness:
  "macro_alert (20000 * day_us + 12 * hour_us) (macro_events 20000) =
      Inr (Imminent \<lparr>date = 20001, event = ''CPI (Inflation) release'',
         why = ''Can move rates & growth stocks; affects valuations.''\<rparr>)"
  using hard_coded_calendar_always_imminent [of 20000 "20000 * day_us + 12 * hour_us"]
  by (simp add: day_us_def hour_us_def)

section \<open>The earnings claims\<close>

text \<open>
  C5, as the script has it. The resolver always returns: when the calendar property
  raises, or the body of the \<open>try\<close> raises for any other reason (a value that
  \<open>pd.to_datetime\<close> rejects among them), the result is \<open>None\<close>. When the cell holds
  a list of candidate dates, the result is the first of the list, wherever the earliest
  stands in it.
\<close>

theorem safe_earnings_date_first_candidate:
  "(\<exists>ed. safe_earnings_date calendar tic = Inr ed)
   \<and> (\<forall>e. calendar tic = Inl e \<longrightarrow> safe_earnings_date calendar tic = Inr None)
   \<and> (\<forall>e. earnings_date_try calendar tic = Inl e \<longrightarrow> safe_earnings_date calendar tic = Inr None)
   \<and> (\<forall>rs vs cs. calendar tic = Inr (Frame rs) \<and> \<not> frame_empty rs
         \<and> map_of rs ''Earnings Date'' = Some (Seq (Junk # vs) # cs)
        \<longrightarrow> safe_earnings_date calendar tic = Inr None)
   \<and> (\<forall>rs d vs cs. calendar tic = Inr (Frame rs) \<and> \<not> frame_empty rs
         \<and> map_of rs ''Earnings Date'' = Some (Seq (Stamp d # vs) # cs)
        \<longrightarrow> safe_earnings_date calendar tic = Inr (Some (Timestamp d)))"
  by (auto simp: safe_earnings_date_def earnings_date_try_def split: sum.splits)

theorem safe_earnings_date_first_candidate_witness:
  "safe_earnings_date (\<lambda>t. Inl ConnectionError) ''NVDA'' = Inr None
   \<and> safe_earnings_date (\<lambda>t. Inr (Frame [(''Earnings Date'', [Seq [Junk, Stamp 5]])])) ''NVDA''
       = Inr None
   \<and> safe_earnings_date (\<lambda>t. Inr (Frame [(''Earnings Date'', [Seq [Stamp 10, Stamp 5]])])) ''NVDA''
       = Inr (Some (Timestamp 10))"
  using safe_earnings_date_first_candidate [of "\<lambda>t. Inl ConnectionError" "''NVDA''"]
    safe_earnings_date_first_candidate [of "\<lambda>t. Inr (Frame [(''Earnings Date'', [Seq [Junk, Stamp 5]])])" "''NVDA''"]
    safe_earnings_date_first_candidate [of "\<lambda>t. Inr (Frame [(''Earnings Date'', [Seq [Stamp 10, Stamp 5]])])" "''NVDA''"]
  by (simp add: frame_empty_def)

theorem safe_earnings_date_not_earliest:
  "safe_earnings_date (\<lambda>t. Inr (Frame [(''Earnings Date'', [Seq [Stamp 10, Stamp 5]])])) ''NVDA''
       = Inr (Some (Timestamp 10))
   \<and> Min (set [10, 5 :: int]) = 5"
  by (simp add: safe_earnings_date_def earnings_date_try_def frame_empty_def)

lemma earn_df_nonempty:
  "rs \<noteq> [] \<Longrightarrow> earn_df rs =
     Inr \<lparr>columns = [''ticker'', ''earnings_date'', ''days_until''], body = sort_key earn_key rs\<rparr>"
  by (simp add: earn_df_def sort_values_def DataFrame_def)

lemma soon_earn_7d_body:
  "body (soon_earn_7d \<lparr>columns = cs, body = xs\<rparr>) =
     filter (\<lambda>r. case days_until r of None \<Rightarrow> False | Some d \<Rightarrow> 0 \<le> d \<and> d \<le> 7) xs"
proof -
  have "filter (\<lambda>r. days_until r \<noteq> None
            \<and> (case days_until r of None \<Rightarrow> False | Some d \<Rightarrow> 0 \<le> d \<and> d \<le> 7)) xs
      = filter (\<lambda>r. case days_until r of None \<Rightarrow> False | Some d \<Rightarrow> 0 \<le> d \<and> d \<le> 7) xs"
    by (rule filter_cong) (auto split: option.splits)
  then show ?thesis
    by (simp add: soon_earn_7d_def dropna_def mask_def)
qed

lemma sort_key_Nil_iff: "sort_key f xs = [] \<longleftrightarrow> xs = []"
  by (metis length_sort length_0_conv)

lemma earnings_alert_nonempty:
  assumes "rs \<noteq> []"
  shows "earnings_alert rs =
     Inr (let sel = sort_key earn_key
                (filter (\<lambda>r. case days_until r of None \<Rightarrow> False | Some d \<Rightarrow> 0 \<le> d \<and> d \<le> 7) rs)
          in if sel = [] then NoEarnings else Upcoming (map ticker sel))"
  using assms
  by (simp add: earnings_alert_def earn_df_nonempty earnings_banner_def soon_earn_7d_body
      filter_sort Let_def sort_key_Nil_iff)

lemma rows_fields:
  "rows today calendar watchlist = Inr rs \<Longrightarrow>
     map ticker rs = watchlist
     \<and> (\<forall>r \<in> set rs. days_until r = map_option (\<lambda>d. d - today) (earnings_date r))"
proof (induction watchlist arbitrary: rs)
  case Nil
  then show ?case by simp
next
  case (Cons tic watchlist)
  then show ?case
    by (auto simp: earn_row_of_def split: sum.splits option.splits resolved.splits)
qed

lemma filter_due_rows:
  assumes "\<forall>r \<in> set rs. days_until r = map_option (\<lambda>d. d - today) (earnings_date r)"
  shows "filter (\<lambda>r. case days_until r of None \<Rightarrow> False | Some d \<Rightarrow> 0 \<le> d \<and> d \<le> 7) rs
       = filter (spec_due today) rs"
  using assms by (intro filter_cong) (auto simp: spec_due_def split: option.splits)

lemma earn_key_le:
  assumes "earnings_date x = Some a" and "earnings_date y = Some b"
    and "earn_key x \<le> earn_key y"
  shows "(a, ticker x) \<le> (b, ticker y)"
  using assms by (auto simp: earn_key_def less_eq_prod_def less_prod_def)

text \<open>
  What lines 70 to 108 do on a watchlist that is not empty: the tickers shown are those
  of the records inside the window, in the order of line 79 (date, then ticker); a
  record without a date is never among them; with no record inside the window the
  information line is shown.
\<close>

lemma earnings_alert_of_rows:
  assumes "rows today calendar watchlist = Inr rs" and "watchlist \<noteq> []"
  shows "\<exists>sel. earnings_alert rs = Inr (if sel = [] then NoEarnings else Upcoming (map ticker sel))
     \<and> sel = sort_key earn_key (filter (spec_due today) rs)
     \<and> (\<forall>r \<in> set sel. earnings_date r \<noteq> None)
     \<and> sorted (map (\<lambda>r. (the (earnings_date r), ticker r)) sel)"
proof -
  let ?sel = "sort_key earn_key (filter (spec_due today) rs)"
  have f: "map ticker rs = watchlist
     \<and> (\<forall>r \<in> set rs. days_until r = map_option (\<lambda>d. d - today) (earnings_date r))"
    using assms(1) by (rule rows_fields)
  then have ne: "rs \<noteq> []" using assms(2) by auto
  have eq: "filter (\<lambda>r. case days_until r of None \<Rightarrow> False | Some d \<Rightarrow> 0 \<le> d \<and> d \<le> 7) rs
       = filter (spec_due today) rs"
    using f by (intro filter_due_rows) simp
  have a: "earnings_alert rs = Inr (if ?sel = [] then NoEarnings else Upcoming (map ticker ?sel))"
    unfolding earnings_alert_nonempty [OF ne] eq by (simp only: Let_def)
  have b: "\<forall>r \<in> set ?sel. earnings_date r \<noteq> None"
    by (auto simp: spec_due_def split: option.splits)
  have "sorted (map earn_key ?sel)" by simp
  then have "sorted_wrt (\<lambda>x y. earn_key x \<le> earn_key y) ?sel"
    by (simp only: sorted_map)
  then have "sorted_wrt (\<lambda>x y. (the (earnings_date x), ticker x) \<le> (the (earnings_date y), ticker y)) ?sel"
  proof (rule sorted_wrt_mono_rel [rotated])
    fix x y assume "x \<in> set ?sel" "y \<in> set ?sel" "earn_key x \<le> earn_key y"
    then show "(the (earnings_date x), ticker x) \<le> (the (earnings_date y), ticker y)"
      using b earn_key_le [of x _ y] by fastforce
  qed
  then have c: "sorted (map (\<lambda>r. (the (earnings_date r), ticker r)) ?sel)"
    by (simp only: sorted_map)
  show ?thesis using a b c by blast
qed

text \<open>
  C4. For no records at all the claim gives the alert \<open>none\<close>. The script builds the
  table of line 79 from an empty list, so the table has no column to sort by and
  \<open>sort_values\<close> raises; the alert of lines 100 to 108 is never computed.
\<close>

theorem earnings_alert_no_rows_raises:
  "rows today calendar [] = Inr [] \<and> earnings_alert [] = Inl (KeyError ''earnings_date'')"
  by (simp add: earnings_alert_def earn_df_def sort_values_def DataFrame_def)

section \<open>The exposure claims\<close>

text \<open>
  C8. For the watchlist AAPL, MSFT with both sectors Technology the tag counts are
  rate-sensitive 2 and growth 2, the share is 1, and the dominant tag is rate-sensitive:
  of the two tied tags the one met first, which is also the first of the tag vocabulary.
\<close>

theorem exposure_two_technology:
  assumes "get_sector ''AAPL'' = Some ''Technology''"
    and "get_sector ''MSFT'' = Some ''Technology''"
  shows "exposure get_sector [''AAPL'', ''MSFT''] =
    Inr \<lparr>tag_counts = [(''rate-sensitive'', 2), (''growth'', 2)],
         top_tag = ''rate-sensitive'', top_share = 1\<rparr>"
  using assms
  by (simp add: exposure_def getitem_def ex_df_def ex_rows_def DataFrame_def tags_of_def
      sector_to_tags_def summarize_def all_tags_def strip_def is_space_def value_counts_def
      uniq_def)

theorem exposure_two_technology_witness:
  "exposure (\<lambda>t. Some ''Technology'') [''AAPL'', ''MSFT''] =
    Inr \<lparr>tag_counts = [(''rate-sensitive'', 2), (''growth'', 2)],
         top_tag = ''rate-sensitive'', top_share = 1\<rparr>"
  using exposure_two_technology [of "\<lambda>t. Some ''Technology''"] by simp

lemma table_tags:
  "\<forall>ts \<in> set ([''unknown''] # map snd sector_to_tags).
     map strip (split CHR '','' (join '', '' ts)) = ts \<and> distinct ts \<and> ts \<noteq> []"
  by (simp add: sector_to_tags_def strip_def is_space_def)

lemma tags_of_in_table: "tags_of s \<in> set ([''unknown''] # map snd sector_to_tags)"
proof (cases s)
  case None
  then show ?thesis by (simp add: tags_of_def)
next
  case (Some n)
  show ?thesis
  proof (cases "map_of sector_to_tags n")
    case None
    then show ?thesis using Some by (simp add: tags_of_def)
  next
    case (Some ts)
    then have "(n, ts) \<in> set sector_to_tags" by (rule map_of_SomeD)
    then have "ts \<in> snd ` set sector_to_tags" by force
    then show ?thesis using Some \<open>s = Some n\<close> by (simp add: tags_of_def)
  qed
qed

lemma tags_roundtrip: "map strip (split CHR '','' (join '', '' (tags_of s))) = tags_of s"
  using table_tags tags_of_in_table [of s] by blast

lemma tags_distinct: "distinct (tags_of s)"
  using table_tags tags_of_in_table [of s] by blast

lemma tags_nonempty: "tags_of s \<noteq> []"
  using table_tags tags_of_in_table [of s] by blast

lemma all_tags_ex_rows:
  "all_tags (map tags (ex_rows get_sector watchlist))
     = concat (map (\<lambda>tic. tags_of (get_sector tic)) watchlist)"
  by (simp add: all_tags_def ex_rows_def comp_def tags_roundtrip)

lemma distinct_count_le_1: "distinct xs \<Longrightarrow> count_list xs x \<le> 1"
  by (induction xs) auto

lemma count_concat_le:
  "(\<And>t. distinct (f t)) \<Longrightarrow> count_list (concat (map f ws)) x \<le> length ws"
proof (induction ws)
  case Nil
  then show ?case by simp
next
  case (Cons w ws)
  have "count_list (f w) x \<le> 1" using Cons.prems by (rule distinct_count_le_1)
  moreover have "count_list (concat (map f ws)) x \<le> length ws"
    using Cons by simp
  ultimately show ?case by simp
qed

lemma set_uniq: "set (uniq xs) = set xs"
  by (simp add: uniq_def)

lemma set_value_counts: "set (value_counts xs) = (\<lambda>x. (x, count_list xs x)) ` set xs"
  by (simp add: value_counts_def set_uniq)

lemma value_counts_Nil_iff: "value_counts xs = [] \<longleftrightarrow> xs = []"
  using set_value_counts [of xs] by (metis image_is_empty set_empty)

lemma sorted_le_last: "sorted (map f ys) \<Longrightarrow> y \<in> set ys \<Longrightarrow> f y \<le> f (last ys)"
proof (induction ys)
  case Nil
  then show ?case by simp
next
  case (Cons a ys)
  then show ?case by (cases ys) auto
qed

lemma value_counts_hd_max:
  assumes "value_counts xs = (t, n) # rest"
  shows "t \<in> set xs \<and> n = count_list xs t \<and> (\<forall>x. count_list xs x \<le> n)"
proof -
  let ?ys = "sort_key snd (rev (map (\<lambda>x. (x, count_list xs x)) (uniq xs)))"
  have vc: "value_counts xs = rev ?ys" by (simp add: value_counts_def)
  have "(t, n) \<in> set (value_counts xs)" using assms by simp
  then have tn: "t \<in> set xs \<and> n = count_list xs t"
    by (auto simp: set_value_counts)
  have ne: "?ys \<noteq> []" using assms vc by auto
  have last: "last ?ys = (t, n)"
    using assms vc ne by (metis hd_rev list.sel(1))
  have srt: "sorted (map snd ?ys)" by simp
  have "\<forall>x. count_list xs x \<le> n"
  proof
    fix x
    show "count_list xs x \<le> n"
    proof (cases "x \<in> set xs")
      case True
      then have "(x, count_list xs x) \<in> set ?ys" by (simp add: set_uniq)
      then have "snd (x, count_list xs x) \<le> snd (last ?ys)"
        using srt by (rule sorted_le_last [rotated])
      then show ?thesis using last by simp
    next
      case False
      then show ?thesis by simp
    qed
  qed
  then show ?thesis using tn by simp
qed

text \<open>
  What lines 136 to 154 do on a watchlist that is not empty: the share is the count of
  the dominant tag over the number of tickers, no tag is counted more often than the
  dominant one, and the share is above 0 and at most 1.
\<close>

lemma exposure_nonempty:
  assumes "watchlist \<noteq> []"
  shows "\<exists>s. exposure get_sector watchlist = Inr s
     \<and> tag_counts s = value_counts (concat (map (\<lambda>tic. tags_of (get_sector tic)) watchlist))
     \<and> top_tag s \<in> set (concat (map (\<lambda>tic. tags_of (get_sector tic)) watchlist))
     \<and> top_share s =
         of_nat (count_list (concat (map (\<lambda>tic. tags_of (get_sector tic)) watchlist)) (top_tag s))
           / of_nat (max (length watchlist) 1)
     \<and> (\<forall>x. count_list (concat (map (\<lambda>tic. tags_of (get_sector tic)) watchlist)) x
            \<le> count_list (concat (map (\<lambda>tic. tags_of (get_sector tic)) watchlist)) (top_tag s))
     \<and> 0 < top_share s \<and> top_share s \<le> 1"
proof -
  let ?ts = "concat (map (\<lambda>tic. tags_of (get_sector tic)) watchlist)"
  obtain w ws where wl: "watchlist = w # ws" using assms by (cases watchlist) auto
  have "?ts \<noteq> []" using wl tags_nonempty by simp
  then obtain t n rest where vc: "value_counts ?ts = (t, n) # rest"
    using value_counts_Nil_iff [of ?ts] by (cases "value_counts ?ts") auto
  have hd: "t \<in> set ?ts \<and> n = count_list ?ts t \<and> (\<forall>x. count_list ?ts x \<le> n)"
    using vc by (rule value_counts_hd_max)
  have ex: "exposure get_sector watchlist = Inr (summarize watchlist (map tags (ex_rows get_sector watchlist)))"
    using assms by (simp add: exposure_def getitem_def ex_df_def DataFrame_def ex_rows_def)
  let ?s = "summarize watchlist (map tags (ex_rows get_sector watchlist))"
  have s1: "tag_counts ?s = value_counts ?ts"
    by (simp add: summarize_def Let_def all_tags_ex_rows)
  have s2: "top_tag ?s = t"
    by (simp add: summarize_def Let_def all_tags_ex_rows vc)
  have s3: "top_share ?s = of_nat n / of_nat (max (length watchlist) 1)"
    by (simp add: summarize_def Let_def all_tags_ex_rows vc)
  have n_pos: "0 < n" using hd by (metis count_list_0_iff gr0I)
  have n_le: "n \<le> length watchlist"
    using hd count_concat_le [of "\<lambda>tic. tags_of (get_sector tic)" watchlist t] tags_distinct by simp
  have lpos: "0 < length watchlist" using assms by simp
  then have "1 \<le> length watchlist" by (simp only: One_nat_def Suc_le_eq)
  then have len: "max (length watchlist) 1 = length watchlist" by (rule max_absorb1)
  have pos: "0 < top_share ?s" unfolding s3 len using n_pos lpos by simp
  have le1: "top_share ?s \<le> 1" unfolding s3 len using n_le lpos by simp
  show ?thesis
    using ex s1 s2 s3 hd pos le1 by auto
qed

text \<open>
  C1. For the empty watchlist the claim gives the share 0. The script's exposure table is
  then built from an empty list and has no \<open>tags\<close> column, so line 148 raises before
  the guards of lines 153 and 154 are reached.
\<close>

theorem exposure_empty_watchlist_raises:
  "exposure get_sector [] = Inl (KeyError ''tags'')"
  by (simp add: exposure_def getitem_def ex_df_def ex_rows_def DataFrame_def)

section \<open>The whole run on an empty watchlist\<close>

text \<open>
  C2. After Clear the watchlist is empty, and the run ends at line 79 with
  \<open>KeyError\<close> for every calendar that has an event (at line 46 for the empty
  calendar): no earnings alert and no exposure summary are produced.
\<close>

theorem run_empty_watchlist_raises:
  "col_clear True watchlist = []
   \<and> run today now calendar get_sector (macro_events today) [] = Inl (KeyError ''earnings_date'')
   \<and> run today now calendar get_sector evs []
       = Inl (KeyError (if evs = [] then ''date'' else ''earnings_date''))"
  by (simp add: run_def col_clear_def macro_df_def earn_df_def sort_values_def DataFrame_def
      macro_events_def)

end
